theory Spec2Isabelle
  imports Main
begin

section \<open>JavaScript values\<close>

text \<open>
  The adapter is untyped at run time: inputs, options and page parameters are arbitrary
  JavaScript values. Numbers are represented by the integers together with \<open>NaN\<close>; the
  adapter only ever tests a number for truthiness. A symbol is identified by its
  description, a function by a name, a promise by a number. A plain object is the list of
  its own enumerable string-keyed properties in insertion order (JavaScript lists keys
  that are array indices first; the objects compared below have none).
\<close>

datatype jsval =
    JUndefined
  | JNull
  | JBool bool
  | JNum int
  | JNaN
  | JStr string
  | JSymbol string
  | JFun string
  | JPromise nat
  | JArr "jsval list"
  | JObj "(string \<times> jsval) list"

datatype jstype =
  TyUndefined | TyObject | TyBoolean | TyNumber | TyString | TySymbol | TyFunction

datatype error = TypeError

text \<open>The \<open>typeof\<close> operator.\<close>

fun typeof :: "jsval \<Rightarrow> jstype" where
  "typeof JUndefined = TyUndefined"
| "typeof JNull = TyObject"
| "typeof (JBool b) = TyBoolean"
| "typeof (JNum n) = TyNumber"
| "typeof JNaN = TyNumber"
| "typeof (JStr s) = TyString"
| "typeof (JSymbol s) = TySymbol"
| "typeof (JFun f) = TyFunction"
| "typeof (JPromise p) = TyObject"
| "typeof (JArr xs) = TyObject"
| "typeof (JObj fs) = TyObject"

text \<open>Truthiness (\<open>!!v\<close>): the falsy values are undefined, null, false, 0, NaN and the
  empty string.\<close>

fun truthy :: "jsval \<Rightarrow> bool" where
  "truthy JUndefined = False"
| "truthy JNull = False"
| "truthy (JBool b) = b"
| "truthy (JNum n) = (n \<noteq> 0)"
| "truthy JNaN = False"
| "truthy (JStr s) = (s \<noteq> [])"
| "truthy (JSymbol s) = True"
| "truthy (JFun f) = True"
| "truthy (JPromise p) = True"
| "truthy (JArr xs) = True"
| "truthy (JObj fs) = True"

fun isArray :: "jsval \<Rightarrow> bool" where
  "isArray (JArr xs) = True"
| "isArray v = False"

text \<open>\<open>a ?? b\<close>: the right operand replaces undefined and null only.\<close>

definition nullish :: "jsval \<Rightarrow> jsval \<Rightarrow> jsval" where
  "nullish a b = (if a = JUndefined \<or> a = JNull then b else a)"

subsection \<open>Properties of objects\<close>

text \<open>Reading an own property of a property list; the first entry of a key counts.\<close>

fun obj_get :: "(string \<times> jsval) list \<Rightarrow> string \<Rightarrow> jsval option" where
  "obj_get [] k = None"
| "obj_get ((k', v) # fs) k = (if k' = k then Some v else obj_get fs k)"

text \<open>Writing a property: an existing key keeps its position, a new key is appended.\<close>

fun obj_set :: "string \<Rightarrow> jsval \<Rightarrow> (string \<times> jsval) list \<Rightarrow> (string \<times> jsval) list" where
  "obj_set k v [] = [(k, v)]"
| "obj_set k v ((k', v') # fs) =
     (if k' = k then (k, v) # fs else (k', v') # obj_set k v fs)"

text \<open>\<open>{...a, ...b}\<close> on property lists: the properties of \<open>b\<close> are written over those
  of \<open>a\<close>, in order.\<close>

definition obj_merge ::
  "(string \<times> jsval) list \<Rightarrow> (string \<times> jsval) list \<Rightarrow> (string \<times> jsval) list" where
  "obj_merge a b = foldl (\<lambda>acc (k, v). obj_set k v acc) a b"

text \<open>Decimal numerals, for the index keys of a spread string or array.\<close>

definition digit_char :: "nat \<Rightarrow> char" where
  "digit_char d = char_of (48 + d)"

fun dec :: "nat \<Rightarrow> string" where
  "dec n = (if n < 10 then [digit_char n] else dec (n div 10) @ [digit_char (n mod 10)])"

declare dec.simps [simp del]

definition indexed :: "jsval list \<Rightarrow> (string \<times> jsval) list" where
  "indexed xs = map (\<lambda>i. (dec i, xs ! i)) [0..<length xs]"

text \<open>The own enumerable properties that a spread \<open>...v\<close> inside an object literal
  copies: those of an object, the elements of an array and the characters of a string
  under their indices, and nothing for any other value.\<close>

fun spread :: "jsval \<Rightarrow> (string \<times> jsval) list" where
  "spread (JObj fs) = fs"
| "spread (JArr xs) = indexed xs"
| "spread (JStr s) = indexed (map (\<lambda>c. JStr [c]) s)"
| "spread v = []"

text \<open>\<open>v?.k\<close>: the property of an object, and undefined for a missing property and for
  every value without own properties of the names the adapter reads (\<open>trpc\<close>, \<open>lazy\<close>,
  \<open>enabled\<close>, \<open>initialCursor\<close>, \<open>abortOnUnmount\<close>, \<open>subscribe\<close>, the handler names).\<close>

fun get_prop :: "jsval \<Rightarrow> string \<Rightarrow> jsval" where
  "get_prop (JObj fs) k = (case obj_get fs k of Some v \<Rightarrow> v | None \<Rightarrow> JUndefined)"
| "get_prop v k = JUndefined"

text \<open>The \<open>in\<close> operator after a guard has established \<open>typeof v = 'object'\<close> and
  \<open>v\<close> is not null, for the names the adapter tests (\<open>cursor\<close>, \<open>direction\<close>,
  \<open>subscribe\<close>): none of them is inherited, and arrays and promises have none of them.\<close>

fun in_obj :: "string \<Rightarrow> jsval \<Rightarrow> bool" where
  "in_obj k (JObj fs) = (obj_get fs k \<noteq> None)"
| "in_obj k v = False"

text \<open>\<open>isObject\<close>: \<open>!!value && !Array.isArray(value) && typeof value === 'object'\<close>.\<close>

definition isObject :: "jsval \<Rightarrow> bool" where
  "isObject v = (truthy v \<and> \<not> isArray v \<and> typeof v = TyObject)"

text \<open>\<open>isSvelteStore\<close>: \<open>typeof obj === 'object' && 'subscribe' in obj &&
  typeof obj.subscribe === 'function'\<close>. The \<open>in\<close> operator raises a TypeError on null,
  whose \<open>typeof\<close> is \<open>'object'\<close>.\<close>

definition isSvelteStore :: "jsval \<Rightarrow> error + bool" where
  "isSvelteStore obj =
     (if typeof obj = TyObject then
        (if obj = JNull then Inl TypeError
         else Inr (in_obj ''subscribe'' obj \<and> typeof (get_prop obj ''subscribe'') = TyFunction))
      else Inr False)"

text \<open>The two sentinels: the cache library's skip token and the adapter's \<open>blank\<close>.\<close>

definition skipToken :: jsval where
  "skipToken = JSymbol ''skipToken''"

definition blank :: jsval where
  "blank = JSymbol ''blank''"

definition isBlank :: "jsval \<Rightarrow> bool" where
  "isBlank v = (v = blank)"

section \<open>Key codec\<close>

datatype QueryType = TQuery | TInfinite | TAny

text \<open>The optional second element of a key, \<open>{ input?, type? }\<close>.\<close>

record key_opts =
  opt_input :: "jsval option"
  opt_type :: "QueryType option"

text \<open>A key is the empty array, \<open>[segments]\<close> or \<open>[segments, options]\<close>.\<close>

datatype TRPCQueryKey =
    KeyEmpty
  | Key1 "string list"
  | Key2 "string list" key_opts

text \<open>\<open>String.prototype.split\<close> with a one-character separator: the result is never
  empty, and the empty string splits into one empty segment.\<close>

fun split :: "char \<Rightarrow> string \<Rightarrow> string list" where
  "split sep [] = [[]]"
| "split sep (c # cs) =
     (if c = sep then [] # split sep cs
      else (case split sep cs of
              [] \<Rightarrow> [[c]]
            | w # ws \<Rightarrow> (c # w) # ws))"

text \<open>\<open>path.flatMap((part) => part.split('.'))\<close>.\<close>

definition splitPath :: "string list \<Rightarrow> string list" where
  "splitPath path = concat (map (split (CHR ''.'')) path)"

text \<open>The rest pattern \<open>{ cursor, direction, ...rest } = input\<close>.\<close>

definition inputWithoutCursorAndDirection :: "(string \<times> jsval) list \<Rightarrow> (string \<times> jsval) list" where
  "inputWithoutCursorAndDirection fs =
     filter (\<lambda>(k, v). k \<noteq> ''cursor'' \<and> k \<noteq> ''direction'') fs"

fun rest_of :: "jsval \<Rightarrow> jsval" where
  "rest_of (JObj fs) = JObj (inputWithoutCursorAndDirection fs)"
| "rest_of v = JObj []"

text \<open>\<open>getQueryKeyInternal\<close>. The type is declared as a \<open>QueryType\<close>, but the code also
  handles a missing one (\<open>!type\<close>), here \<open>None\<close>.\<close>

definition getQueryKeyInternal ::
  "string list \<Rightarrow> jsval \<Rightarrow> QueryType option \<Rightarrow> TRPCQueryKey" where
  "getQueryKeyInternal path input type =
     (let sp = splitPath path in
      if \<not> truthy input \<and> (type = None \<or> type = Some TAny) then
        (if length sp \<noteq> 0 then Key1 sp else KeyEmpty)
      else if type = Some TInfinite \<and> isObject input \<and>
              (in_obj ''direction'' input \<or> in_obj ''cursor'' input) then
        Key2 sp \<lparr>opt_input = Some (rest_of input), opt_type = Some TInfinite\<rparr>
      else
        Key2 sp
          \<lparr>opt_input = (if typeof input \<noteq> TyUndefined \<and> input \<noteq> skipToken
                        then Some input else None),
           opt_type = (if type \<noteq> None \<and> type \<noteq> Some TAny then type else None)\<rparr>)"

definition getMutationKeyInternal :: "string list \<Rightarrow> TRPCQueryKey" where
  "getMutationKeyInternal path = getQueryKeyInternal path JUndefined (Some TAny)"

text \<open>The number of elements of a key, and its optional elements.\<close>

fun key_length :: "TRPCQueryKey \<Rightarrow> nat" where
  "key_length KeyEmpty = 0"
| "key_length (Key1 sp) = 1"
| "key_length (Key2 sp opts) = 2"

fun key_segments :: "TRPCQueryKey \<Rightarrow> string list option" where
  "key_segments KeyEmpty = None"
| "key_segments (Key1 sp) = Some sp"
| "key_segments (Key2 sp opts) = Some sp"

fun key_options :: "TRPCQueryKey \<Rightarrow> key_opts option" where
  "key_options KeyEmpty = None"
| "key_options (Key1 sp) = None"
| "key_options (Key2 sp opts) = Some opts"

text \<open>\<open>queryKey[1]?.input\<close>.\<close>

definition key_input :: "TRPCQueryKey \<Rightarrow> jsval" where
  "key_input k =
     (case key_options k of
        None \<Rightarrow> JUndefined
      | Some opts \<Rightarrow> (case opt_input opts of None \<Rightarrow> JUndefined | Some v \<Rightarrow> v))"

text \<open>
  The atomic segments of a path as the specification describes them, written without the
  code's \<open>split\<close>: a segment is cut at each separator, which takes the text before the
  first \<open>.\<close> as one atom and goes on after it, and the atoms of all segments are put
  together in order.
\<close>

function atoms :: "string \<Rightarrow> string list" where
  "atoms s =
     (case dropWhile (\<lambda>c. c \<noteq> CHR ''.'') s of
        [] \<Rightarrow> [takeWhile (\<lambda>c. c \<noteq> CHR ''.'') s]
      | d # r \<Rightarrow> takeWhile (\<lambda>c. c \<noteq> CHR ''.'') s # atoms r)"
  by pat_completeness auto
termination
proof (relation "measure length")
  show "wf (measure length)" by simp
next
  fix s :: string and d r
  assume "dropWhile (\<lambda>c. c \<noteq> CHR ''.'') s = d # r"
  then have "length (d # r) \<le> length s"
    using length_dropWhile_le [of "\<lambda>c. c \<noteq> CHR ''.''" s] by simp
  then show "(r, s) \<in> measure length" by simp
qed

declare atoms.simps [simp del]

text \<open>\<open>atomic_segments\<close> follows the specification's words (each segment split on
  the separator, concatenated in order); \<open>splitPath\<close> above is the code.\<close>

definition atomic_segments :: "string list \<Rightarrow> string list" where
  "atomic_segments p = concat (map atoms p)"

text \<open>\<open>getQueryType\<close>: the key type of each cache-control utility.\<close>

datatype Util =
    UFetch | UPrefetch | UFetchInfinite | UPrefetchInfinite | UEnsureData | UInvalidate
  | URefetch | UReset | UCancel | USetData | UGetData | USetInfiniteData | UGetInfiniteData
  | USetMutationDefaults | UGetMutationDefaults | UIsMutating

fun Util_name :: "Util \<Rightarrow> string" where
  "Util_name UFetch = ''fetch''"
| "Util_name UPrefetch = ''prefetch''"
| "Util_name UFetchInfinite = ''fetchInfinite''"
| "Util_name UPrefetchInfinite = ''prefetchInfinite''"
| "Util_name UEnsureData = ''ensureData''"
| "Util_name UInvalidate = ''invalidate''"
| "Util_name URefetch = ''refetch''"
| "Util_name UReset = ''reset''"
| "Util_name UCancel = ''cancel''"
| "Util_name USetData = ''setData''"
| "Util_name UGetData = ''getData''"
| "Util_name USetInfiniteData = ''setInfiniteData''"
| "Util_name UGetInfiniteData = ''getInfiniteData''"
| "Util_name USetMutationDefaults = ''setMutationDefaults''"
| "Util_name UGetMutationDefaults = ''getMutationDefaults''"
| "Util_name UIsMutating = ''isMutating''"


section \<open>Effects and the dispatch context\<close>

text \<open>
  The underlying remote-procedure client, the cache and the console are external. A call
  on one of them is recorded as an effect: \<open>targetProc.query(input, opts)\<close> after
  \<open>for (const p of path) targetProc = targetProc[p]\<close> is the client call with target
  \<open>path\<close>, method \<open>query\<close> and those arguments.
\<close>

record client_call =
  target :: "string list"
  call_method :: string
  call_args :: "jsval list"

datatype effect =
    ConsoleError string
  | ClientCall client_call
  | SetQueryData TRPCQueryKey jsval
  | EnabledSet bool

text \<open>\<open>SvelteQueryWrapperContext\<close>; the two handles are opaque.\<close>

record SvelteQueryWrapperContext =
  trpcProxyClient :: nat
  queryClient :: nat
  path :: "string list"
  key :: string
  abortOnUnmount :: jsval

section \<open>Operation registry and path resolver\<close>

datatype Procedure =
    PQuery | PServerQuery | PInfiniteQuery | PServerInfiniteQuery | PMutate | PSubscribe
  | PQueryKey | PContext | PUtils | PQueries | PServerQueries

text \<open>The table \<open>Procedure\<close>.\<close>

fun Procedure_name :: "Procedure \<Rightarrow> string" where
  "Procedure_name PQuery = ''createQuery''"
| "Procedure_name PServerQuery = ''createServerQuery''"
| "Procedure_name PInfiniteQuery = ''createInfiniteQuery''"
| "Procedure_name PServerInfiniteQuery = ''createServerInfiniteQuery''"
| "Procedure_name PMutate = ''createMutation''"
| "Procedure_name PSubscribe = ''createSubscription''"
| "Procedure_name PQueryKey = ''getQueryKey''"
| "Procedure_name PContext = ''createContext''"
| "Procedure_name PUtils = ''createUtils''"
| "Procedure_name PQueries = ''createQueries''"
| "Procedure_name PServerQueries = ''createServerQueries''"

definition all_procedures :: "Procedure list" where
  "all_procedures =
     [PQueryKey, PQuery, PServerQuery, PInfiniteQuery, PServerInfiniteQuery, PMutate,
      PSubscribe, PQueries, PServerQueries, PUtils, PContext]"

text \<open>\<open>hasOwn(procedures, key)\<close> and the entry \<open>procedures[key]\<close>.\<close>

definition procedure_of_key :: "string \<Rightarrow> Procedure option" where
  "procedure_of_key k = find (\<lambda>p. Procedure_name p = k) all_procedures"

text \<open>What the path resolver's \<open>apply\<close> trap returns: the \<open>_def\<close> record, the result of
  the binder that a factory \<open>procedures[key](ctx)\<close> produced, called with the argument
  list, or a plain value.\<close>

datatype dispatch_value =
    DefPath "string list"
  | Bound Procedure SvelteQueryWrapperContext "jsval list"
  | Plain jsval

text \<open>The factories \<open>procedures[key]\<close>. Each returns a function of the call arguments,
  except that \<open>createQueries\<close>, \<open>createServerQueries\<close>, \<open>createUtils\<close> and
  \<open>createContext\<close> return undefined (\<open>None\<close>) off the root:
  \<open>if (ctx.path.length !== 0) return;\<close>.\<close>

fun procedures ::
  "Procedure \<Rightarrow> SvelteQueryWrapperContext \<Rightarrow> (jsval list \<Rightarrow> dispatch_value) option" where
  "procedures PQueries ctx =
     (if length (path ctx) \<noteq> 0 then None else Some (Bound PQueries ctx))"
| "procedures PServerQueries ctx =
     (if length (path ctx) \<noteq> 0 then None else Some (Bound PServerQueries ctx))"
| "procedures PUtils ctx =
     (if length (path ctx) \<noteq> 0 then None else Some (Bound PUtils ctx))"
| "procedures PContext ctx =
     (if length (path ctx) \<noteq> 0 then None else Some (Bound PContext ctx))"
| "procedures p ctx = Some (Bound p ctx)"

text \<open>\<open>hasOwn(procedureExts, proc) && hasOwn(procedureExts[proc], key)\<close>: the four
  binders with an \<open>opts\<close> extension.\<close>

definition procedureExts :: "string \<Rightarrow> string \<Rightarrow> bool" where
  "procedureExts proc k =
     (proc \<in> set (map Procedure_name [PQuery, PInfiniteQuery, PMutate, PSubscribe])
      \<and> k = ''opts'')"

text \<open>\<open>this.path.pop() ?? ''\<close>: the last segment and the path without it; the empty
  string for the empty path.\<close>

definition pop :: "string list \<Rightarrow> string \<times> string list" where
  "pop p = (if p = [] then ([], []) else (last p, butlast p))"

text \<open>\<open>Array.prototype.join\<close>.\<close>

fun join :: "string \<Rightarrow> string list \<Rightarrow> string" where
  "join sep [] = []"
| "join sep [x] = x"
| "join sep (x # y # ys) = x @ sep @ join sep (y # ys)"

text \<open>The first of the spread arguments of \<open>(opts) => opts\<close>.\<close>

definition first_arg :: "jsval list \<Rightarrow> jsval" where
  "first_arg args = (case args of [] \<Rightarrow> JUndefined | a # _ \<Rightarrow> a)"

text \<open>
  The \<open>apply\<close> trap of \<open>svelteQueryWrapper\<close>, on the accumulated path of the invoked
  node: the effects it has and its result, \<open>Inl TypeError\<close> when it calls the undefined
  result of a factory.
\<close>

definition apply_handler ::
  "nat \<Rightarrow> nat \<Rightarrow> jsval \<Rightarrow> string list \<Rightarrow> jsval list
     \<Rightarrow> effect list \<times> (error + dispatch_value)" where
  "apply_handler client qc abort this_path argList =
     (let (k, path1) = pop this_path in
      if k = ''_def'' then ([], Inr (DefPath path1))
      else
        (case procedure_of_key k of
           Some p \<Rightarrow>
             (case procedures p
                     \<lparr>trpcProxyClient = client, queryClient = qc, path = path1, key = k,
                      abortOnUnmount = abort\<rparr> of
                None \<Rightarrow> ([], Inl TypeError)
              | Some binder \<Rightarrow> ([], Inr (binder argList)))
         | None \<Rightarrow>
             (let (proc, path2) = pop path1 in
              if procedureExts proc k then ([], Inr (Plain (first_arg argList)))
              else
                ([ConsoleError
                    (''[trpc-svelte-query-adapter] Unhandled proxy path: ''
                       @ join ''.'' path2 @ ''.'' @ k)],
                 Inr (Plain JUndefined)))))"

section \<open>Cache-control tree\<close>

text \<open>\<open>hasOwn(utilProcedures, key)\<close>.\<close>

definition all_utils :: "Util list" where
  "all_utils =
     [UFetch, UFetchInfinite, UPrefetch, UPrefetchInfinite, UEnsureData, UInvalidate, UReset,
      URefetch, UCancel, USetData, USetInfiniteData, UGetData, UGetInfiniteData,
      USetMutationDefaults, UGetMutationDefaults, UIsMutating]"

definition util_of_key :: "string \<Rightarrow> Util option" where
  "util_of_key k = find (\<lambda>u. Util_name u = k) all_utils"

text \<open>What a property access on a node of the utils tree yields: the client handle, the
  utility built by \<open>utilProcedures[key]\<close> from the context with \<open>key\<close> and \<open>path\<close>
  assigned, or the nested node, whose path is the node's path extended by the key.\<close>

datatype utils_value =
    ClientHandle nat
  | UtilFn Util SvelteQueryWrapperContext
  | Node "string list"

text \<open>The \<open>get\<close> trap of \<open>createUtilsProxy\<close> on the node at \<open>this_path\<close>.\<close>

definition utils_get :: "SvelteQueryWrapperContext \<Rightarrow> string list \<Rightarrow> string \<Rightarrow> utils_value" where
  "utils_get ctx this_path k =
     (if k = ''client'' then ClientHandle (trpcProxyClient ctx)
      else
        (case util_of_key k of
           Some u \<Rightarrow> UtilFn u (ctx\<lparr>key := k, path := this_path\<rparr>)
         | None \<Rightarrow> Node (this_path @ [k])))"

text \<open>A chain of property accesses \<open>utils.k1.k2\<close>... from the node at \<open>this_path\<close>. A
  value that is not a node of the tree ends the chain: what a further access on it gives
  is the business of the client or of the utility (\<open>None\<close>).\<close>

fun utils_access ::
  "SvelteQueryWrapperContext \<Rightarrow> string list \<Rightarrow> string list \<Rightarrow> utils_value option" where
  "utils_access ctx this_path [] = Some (Node this_path)"
| "utils_access ctx this_path (k # ks) =
     (case utils_get ctx this_path k of
        Node p \<Rightarrow> utils_access ctx p ks
      | v \<Rightarrow> (if ks = [] then Some v else None))"

section \<open>Query and infinite-query binders\<close>

text \<open>An object literal built from spreads and properties, left to right.\<close>

definition object_literal :: "(string \<times> jsval) list list \<Rightarrow> jsval" where
  "object_literal parts = JObj (foldl obj_merge [] parts)"

text \<open>\<open>a && b\<close> as a value.\<close>

definition js_and :: "jsval \<Rightarrow> jsval \<Rightarrow> jsval" where
  "js_and a b = (if truthy a then b else a)"

text \<open>The context a cache observer passes to a fetch function: the page parameter, the
  abort signal and the direction of the page request.\<close>

record page_request =
  pageParam :: jsval
  signal :: jsval
  direction :: jsval

text \<open>
  The options object handed to the cache: the spread options of the caller
  (\<open>...opts\<close>), over which the properties set explicitly win, namely
  \<open>initialPageParam\<close> (infinite queries only), \<open>queryKey\<close>, \<open>queryFn\<close> and, where the
  binder sets it, \<open>enabled\<close>. The fetch function is given by the client call it makes.
\<close>

record descriptor =
  user_opts :: "(string \<times> jsval) list"
  initialPageParam :: "jsval option"
  queryKey :: TRPCQueryKey
  queryFn :: "page_request \<Rightarrow> client_call"
  enabled :: "jsval option"

text \<open>\<open>opts?.trpc?.abortOnUnmount ?? abortOnUnmount\<close>.\<close>

definition shouldAbortOnUnmount :: "jsval \<Rightarrow> jsval \<Rightarrow> jsval" where
  "shouldAbortOnUnmount opts abort =
     nullish (get_prop (get_prop opts ''trpc'') ''abortOnUnmount'') abort"

text \<open>\<open>{ ...opts?.trpc, ...(shouldAbortOnUnmount && { signal }) }\<close>; a falsy value
  spreads to nothing.\<close>

definition trpcSpecificOptions :: "jsval \<Rightarrow> jsval \<Rightarrow> jsval \<Rightarrow> jsval" where
  "trpcSpecificOptions opts should_abort sg =
     object_literal
       [spread (get_prop opts ''trpc''),
        (if truthy should_abort then [(''signal'', sg)] else [])]"

text \<open>\<open>{ ...(input ?? {}), ...(pageParam ? { cursor: pageParam } : {}), direction }\<close>.\<close>

definition actualInput :: "jsval \<Rightarrow> page_request \<Rightarrow> jsval" where
  "actualInput input rq =
     object_literal
       [spread (nullish input (JObj [])),
        (if truthy (pageParam rq) then [(''cursor'', pageParam rq)] else []),
        [(''direction'', direction rq)]]"

text \<open>The fetch functions of the query and of the infinite-query binder.\<close>

definition query_queryFn ::
  "string list \<Rightarrow> jsval \<Rightarrow> jsval \<Rightarrow> jsval \<Rightarrow> page_request \<Rightarrow> client_call" where
  "query_queryFn pth input opts should_abort rq =
     \<lparr>target = pth, call_method = ''query'',
      call_args = [input, trpcSpecificOptions opts should_abort (signal rq)]\<rparr>"

definition infinite_queryFn ::
  "string list \<Rightarrow> jsval \<Rightarrow> jsval \<Rightarrow> jsval \<Rightarrow> page_request \<Rightarrow> client_call" where
  "infinite_queryFn pth input opts should_abort rq =
     \<lparr>target = pth, call_method = ''query'',
      call_args = [actualInput input rq, trpcSpecificOptions opts should_abort (signal rq)]\<rparr>"

text \<open>
  An \<open>async\<close> function as a resumption: it runs to its end with some effects, or it has
  some effects, suspends at an \<open>await\<close> of a value and goes on with the value that the
  awaited promise is fulfilled with. A promise that is rejected or never settles leaves
  the function at the \<open>await\<close>: nothing after it happens.
\<close>

datatype task =
    Return "effect list"
  | Await "effect list" jsval "jsval \<Rightarrow> task"

fun before_await :: "task \<Rightarrow> effect list" where
  "before_await (Return es) = es"
| "before_await (Await es v k) = es"

fun awaited :: "task \<Rightarrow> jsval option" where
  "awaited (Return es) = None"
| "awaited (Await es v k) = Some v"

fun resume :: "task \<Rightarrow> jsval \<Rightarrow> task" where
  "resume (Return es) x = Return []"
| "resume (Await es v k) x = k x"

text \<open>The stores a derived store is built over: the shared \<open>blankStore\<close>, a store of
  the caller, or a fresh \<open>writable\<close> with its initial value.\<close>

datatype store_ref = BlankStore | UserStore jsval | Writable jsval

text \<open>What a binder returns: the observer of a fixed descriptor, the observer of a
  derived store (its sources and its callback on their three values), or the pair of
  such an observer and the activation function.\<close>

datatype query_result =
    Static descriptor
  | Derived "store_ref list" "jsval \<Rightarrow> jsval \<Rightarrow> jsval \<Rightarrow> descriptor"
  | Lazy "store_ref list" "jsval \<Rightarrow> jsval \<Rightarrow> jsval \<Rightarrow> descriptor" "jsval \<Rightarrow> task"

subsection \<open>\<open>procedures[Procedure.query]\<close>\<close>

definition query_static :: "SvelteQueryWrapperContext \<Rightarrow> jsval \<Rightarrow> jsval \<Rightarrow> descriptor" where
  "query_static ctx procedureInput currentOpts =
     \<lparr>user_opts = spread currentOpts,
      initialPageParam = None,
      queryKey = getQueryKeyInternal (path ctx) procedureInput (Some TQuery),
      queryFn = query_queryFn (path ctx) procedureInput currentOpts
                  (shouldAbortOnUnmount currentOpts (abortOnUnmount ctx)),
      enabled = None\<rparr>"

definition query_derived ::
  "SvelteQueryWrapperContext \<Rightarrow> jsval \<Rightarrow> jsval \<Rightarrow> jsval \<Rightarrow> jsval \<Rightarrow> jsval \<Rightarrow> descriptor" where
  "query_derived ctx procedureInput currentOpts s_input s_opts s_enabled =
     (let currentProcedureInputVal = (if \<not> isBlank s_input then s_input else procedureInput);
          newOpts = (if \<not> isBlank s_opts then s_opts else currentOpts)
      in \<lparr>user_opts = spread newOpts,
          initialPageParam = None,
          queryKey = getQueryKeyInternal (path ctx) currentProcedureInputVal (Some TQuery),
          queryFn = query_queryFn (path ctx) currentProcedureInputVal newOpts
                      (shouldAbortOnUnmount currentOpts (abortOnUnmount ctx)),
          enabled =
            (if \<not> isBlank s_enabled
             then Some (js_and s_enabled (nullish (get_prop newOpts ''enabled'') (JBool True)))
             else None)\<rparr>)"

text \<open>The activation function
  \<open>async (data) => { if (data) { queryClient.setQueryData(baseQueryKey, await data); }
  enabled.set(true); }\<close>.\<close>

definition query_resolver :: "TRPCQueryKey \<Rightarrow> jsval \<Rightarrow> task" where
  "query_resolver baseQueryKey data =
     (if truthy data
      then Await [] data (\<lambda>v. Return [SetQueryData baseQueryKey v, EnabledSet True])
      else Return [EnabledSet True])"

text \<open>The binder. \<open>store_get\<close> is the store library's \<open>get\<close>, the current value of a
  store.\<close>

definition query ::
  "(jsval \<Rightarrow> jsval) \<Rightarrow> SvelteQueryWrapperContext \<Rightarrow> jsval \<Rightarrow> jsval \<Rightarrow> error + query_result" where
  "query store_get ctx procedureInput opts =
     (case isSvelteStore opts of
        Inl e \<Rightarrow> Inl e
      | Inr isOptsStore \<Rightarrow>
     (case isSvelteStore procedureInput of
        Inl e \<Rightarrow> Inl e
      | Inr isInputStore \<Rightarrow>
     (let currentOpts = (if isOptsStore then store_get opts else opts);
          baseQueryKey =
            getQueryKeyInternal (path ctx) (if isInputStore then JObj [] else procedureInput)
              (Some TQuery)
      in if \<not> isInputStore \<and> \<not> isOptsStore \<and> \<not> truthy (get_prop currentOpts ''lazy'')
         then Inr (Static (query_static ctx procedureInput currentOpts))
         else
           (let sources =
                  [if isInputStore then UserStore procedureInput else BlankStore,
                   if isOptsStore then UserStore opts else BlankStore,
                   if truthy (get_prop currentOpts ''lazy'') then Writable (JBool False)
                   else BlankStore]
            in if truthy (get_prop currentOpts ''lazy'')
               then Inr (Lazy sources (query_derived ctx procedureInput currentOpts)
                           (query_resolver baseQueryKey))
               else Inr (Derived sources (query_derived ctx procedureInput currentOpts))))))"

subsection \<open>\<open>procedures[Procedure.infiniteQuery]\<close>\<close>

definition infiniteQuery_static ::
  "SvelteQueryWrapperContext \<Rightarrow> jsval \<Rightarrow> jsval \<Rightarrow> descriptor" where
  "infiniteQuery_static ctx procedureInput currentOpts =
     \<lparr>user_opts = spread currentOpts,
      initialPageParam = Some (nullish (get_prop currentOpts ''initialCursor'') JNull),
      queryKey = getQueryKeyInternal (path ctx) procedureInput (Some TInfinite),
      queryFn = infinite_queryFn (path ctx) procedureInput currentOpts
                  (shouldAbortOnUnmount currentOpts (abortOnUnmount ctx)),
      enabled = None\<rparr>"

definition infiniteQuery_derived ::
  "SvelteQueryWrapperContext \<Rightarrow> jsval \<Rightarrow> jsval \<Rightarrow> jsval \<Rightarrow> jsval \<Rightarrow> jsval \<Rightarrow> descriptor" where
  "infiniteQuery_derived ctx procedureInput currentOpts s_input s_opts s_enabled =
     (let currentProcedureInputVal = (if \<not> isBlank s_input then s_input else procedureInput);
          newOpts = (if \<not> isBlank s_opts then s_opts else currentOpts)
      in \<lparr>user_opts = spread newOpts,
          initialPageParam = Some (nullish (get_prop newOpts ''initialCursor'') JNull),
          queryKey = getQueryKeyInternal (path ctx) currentProcedureInputVal (Some TInfinite),
          queryFn = infinite_queryFn (path ctx) currentProcedureInputVal newOpts
                      (shouldAbortOnUnmount currentOpts (abortOnUnmount ctx)),
          enabled =
            (if \<not> isBlank s_enabled
             then Some (js_and s_enabled (nullish (get_prop newOpts ''enabled'') (JBool True)))
             else None)\<rparr>)"

definition infiniteQuery_resolver :: "TRPCQueryKey \<Rightarrow> jsval \<Rightarrow> jsval \<Rightarrow> task" where
  "infiniteQuery_resolver baseQueryKey currentOpts data =
     (if truthy data
      then Await [] data
             (\<lambda>v. Return
                [SetQueryData baseQueryKey
                   (JObj [(''pages'', JArr [v]),
                          (''pageParams'',
                           JArr [nullish (get_prop currentOpts ''initialCursor'') JNull])]),
                 EnabledSet True])
      else Return [EnabledSet True])"

definition infiniteQuery ::
  "(jsval \<Rightarrow> jsval) \<Rightarrow> SvelteQueryWrapperContext \<Rightarrow> jsval \<Rightarrow> jsval \<Rightarrow> error + query_result" where
  "infiniteQuery store_get ctx procedureInput opts =
     (case isSvelteStore opts of
        Inl e \<Rightarrow> Inl e
      | Inr isOptsStore \<Rightarrow>
     (case isSvelteStore procedureInput of
        Inl e \<Rightarrow> Inl e
      | Inr isInputStore \<Rightarrow>
     (let currentOpts = (if isOptsStore then store_get opts else opts);
          baseQueryKey =
            getQueryKeyInternal (path ctx) (if isInputStore then JObj [] else procedureInput)
              (Some TInfinite)
      in if \<not> isInputStore \<and> \<not> isOptsStore \<and> \<not> truthy (get_prop currentOpts ''lazy'')
         then Inr (Static (infiniteQuery_static ctx procedureInput currentOpts))
         else
           (let sources =
                  [if isInputStore then UserStore procedureInput else BlankStore,
                   if isOptsStore then UserStore opts else BlankStore,
                   if truthy (get_prop currentOpts ''lazy'') then Writable (JBool False)
                   else BlankStore]
            in if truthy (get_prop currentOpts ''lazy'')
               then Inr (Lazy sources (infiniteQuery_derived ctx procedureInput currentOpts)
                           (infiniteQuery_resolver baseQueryKey currentOpts))
               else Inr (Derived sources
                           (infiniteQuery_derived ctx procedureInput currentOpts))))))"

subsection \<open>\<open>utilProcedures[Util.Query.fetchInfinite]\<close>\<close>


subsection \<open>\<open>utilProcedures[Util.Query.prefetchInfinite]\<close>\<close>


subsection \<open>\<open>procedures[Procedure.serverInfiniteQuery]\<close>\<close>




section \<open>Subscription binder\<close>

text \<open>\<open>a !== b\<close> for the values compared here, which are held by the same closure from
  one comparison to the next: different values differ, and NaN differs from itself.\<close>

definition strict_neq :: "jsval \<Rightarrow> jsval \<Rightarrow> bool" where
  "strict_neq a b = (a = JNaN \<or> a \<noteq> b)"

text \<open>\<open>new_values.some((value, i) => value !== values[i])\<close>; reading \<open>values\<close> past its
  end gives undefined.\<close>

fun some_changed :: "jsval list \<Rightarrow> jsval list \<Rightarrow> bool" where
  "some_changed [] old = False"
| "some_changed (v # vs) [] = (strict_neq v JUndefined \<or> some_changed vs [])"
| "some_changed (v # vs) (w # ws) = (strict_neq v w \<or> some_changed vs ws)"

text \<open>What the underlying transport delivers to the handlers it was given:
  \<open>onStarted()\<close>, \<open>onData(data)\<close>, \<open>onError(err)\<close>.\<close>

datatype transport_event = TStarted | TData jsval | TError jsval

fun handler_name :: "transport_event \<Rightarrow> string" where
  "handler_name TStarted = ''onStarted''"
| "handler_name (TData d) = ''onData''"
| "handler_name (TError e) = ''onError''"

fun handler_args :: "transport_event \<Rightarrow> jsval list" where
  "handler_args TStarted = []"
| "handler_args (TData d) = [d]"
| "handler_args (TError e) = [e]"

text \<open>The calls on the underlying client: \<open>targetProc.subscribe(input, handlers)\<close> at a
  path, and \<open>unsubscribe()\<close> on the subscription created by the \<open>n\<close>-th of them.\<close>

datatype transport_op = Subscribe "string list" jsval | Unsubscribe nat

text \<open>The constants of one call of the binder: \<open>path\<close>, \<open>procedureInput\<close>, \<open>opts\<close>,
  \<open>enabled = opts?.enabled ?? true\<close> and the hashed key.\<close>

record subscription =
  sub_path :: "string list"
  sub_input :: jsval
  sub_opts :: jsval
  sub_enabled :: jsval
  sub_queryKey :: string

text \<open>\<open>hashKey\<close> belongs to the cache library.\<close>

definition subscribe ::
  "(TRPCQueryKey \<Rightarrow> string) \<Rightarrow> SvelteQueryWrapperContext \<Rightarrow> jsval \<Rightarrow> jsval \<Rightarrow> subscription" where
  "subscribe hashKey ctx procedureInput opts =
     \<lparr>sub_path = path ctx,
      sub_input = procedureInput,
      sub_opts = opts,
      sub_enabled = nullish (get_prop opts ''enabled'') (JBool True),
      sub_queryKey = hashKey (getQueryKeyInternal (path ctx) procedureInput (Some TAny))\<rparr>"

text \<open>
  The state of \<open>effect(cb, deps)\<close> and of the closures its callback creates: the cleanup
  function that the effect holds (that of the subscription with the given number, or
  none), the dependency values of the last run, the \<open>isStopped\<close> variable of every
  subscription created so far, the calls made on the underlying client, and the calls
  made on the caller's handlers, each with the number of the subscription whose wrapper
  made it.
\<close>

record effect_state =
  cleanup :: "nat option"
  dep_values :: "jsval list"
  isStopped :: "bool list"
  transport_ops :: "transport_op list"
  handler_calls :: "(nat \<times> string \<times> jsval list) list"

definition initial_state :: effect_state where
  "initial_state =
     \<lparr>cleanup = None, dep_values = [], isStopped = [], transport_ops = [], handler_calls = []\<rparr>"

text \<open>\<open>if (cleanup) cleanup()\<close>, the cleanup being
  \<open>() => { isStopped = true; subscription.unsubscribe(); }\<close>.\<close>

definition run_cleanup :: "effect_state \<Rightarrow> effect_state" where
  "run_cleanup s =
     (case cleanup s of
        None \<Rightarrow> s
      | Some i \<Rightarrow>
          s\<lparr>isStopped := (isStopped s)[i := True],
            transport_ops := transport_ops s @ [Unsubscribe i]\<rparr>)"

text \<open>\<open>cleanup = cb()\<close>: nothing when not enabled; otherwise a new subscription with its
  own \<open>isStopped = false\<close>, subscribed with \<open>procedureInput ?? undefined\<close>.\<close>

definition run_cb :: "subscription \<Rightarrow> effect_state \<Rightarrow> effect_state" where
  "run_cb c s =
     (if \<not> truthy (sub_enabled c) then s\<lparr>cleanup := None\<rparr>
      else
        s\<lparr>cleanup := Some (length (isStopped s)),
          isStopped := isStopped s @ [False],
          transport_ops :=
            transport_ops s @ [Subscribe (sub_path c) (nullish (sub_input c) JUndefined)]\<rparr>)"

text \<open>The function \<open>apply\<close> of \<open>effect\<close>.\<close>

definition effect_apply :: "subscription \<Rightarrow> effect_state \<Rightarrow> effect_state" where
  "effect_apply c s = run_cb c (run_cleanup s)"

text \<open>A handler wrapper, \<open>if (!isStopped) opts?.onData?.(data)\<close>: the caller's handler
  is called when the subscription's flag is unset and the handler is neither undefined
  nor null.\<close>

definition deliver :: "subscription \<Rightarrow> nat \<Rightarrow> transport_event \<Rightarrow> effect_state \<Rightarrow> effect_state" where
  "deliver c i ev s =
     (if i < length (isStopped s) \<and> \<not> isStopped s ! i
         \<and> nullish (get_prop (sub_opts c) (handler_name ev)) JUndefined \<noteq> JUndefined
      then s\<lparr>handler_calls := handler_calls s @ [(i, handler_name ev, handler_args ev)]\<rparr>
      else s)"

text \<open>What can happen to a component that called the binder: the framework runs the
  \<open>afterUpdate\<close> or the \<open>onDestroy\<close> callback of \<open>effect\<close>, or the transport delivers
  an event to the handlers of one of the subscriptions.\<close>

datatype lifecycle_event = AfterUpdate | Destroy | Deliver nat transport_event

fun step :: "subscription \<Rightarrow> effect_state \<Rightarrow> lifecycle_event \<Rightarrow> effect_state" where
  "step c s AfterUpdate =
     (let new_values = [JStr (sub_queryKey c), sub_enabled c]
      in if some_changed new_values (dep_values s)
         then (effect_apply c s)\<lparr>dep_values := new_values\<rparr>
         else s)"
| "step c s Destroy = run_cleanup s"
| "step c s (Deliver i ev) = deliver c i ev s"

text \<open>The handler calls made through one subscription.\<close>

definition calls_via :: "nat \<Rightarrow> effect_state \<Rightarrow> (nat \<times> string \<times> jsval list) list" where
  "calls_via i s = filter (\<lambda>(j, h). j = i) (handler_calls s)"

text \<open>The cleanup that the effect holds belongs to a subscription that exists.\<close>

definition cleanup_in_range :: "effect_state \<Rightarrow> bool" where
  "cleanup_in_range s =
     (case cleanup s of None \<Rightarrow> True | Some i \<Rightarrow> i < length (isStopped s))"

section \<open>Properties of the key codec\<close>

lemma split_not_Nil: "split sep s \<noteq> []"
  by (induction s) (auto split: list.splits)

lemma splitPath_Nil_iff: "splitPath p = [] \<longleftrightarrow> p = []"
  by (cases p) (auto simp: splitPath_def split_not_Nil)

text \<open>
  C3. With no input and type \<open>any\<close> the key has no options element: it is the one-element
  key of the atomic segments, and for the empty path it is the empty key, not a key
  holding an empty segment list.
\<close>

theorem getQueryKeyInternal_no_input_any:
  "getQueryKeyInternal p JUndefined (Some TAny) =
     (if p = [] then KeyEmpty else Key1 (splitPath p))
   \<and> key_options (getQueryKeyInternal p JUndefined (Some TAny)) = None
   \<and> key_length (getQueryKeyInternal p JUndefined (Some TAny)) = (if p = [] then 0 else 1)
   \<and> getQueryKeyInternal [] JUndefined (Some TAny) = KeyEmpty"
  by (simp add: getQueryKeyInternal_def Let_def splitPath_Nil_iff)

text \<open>
  C4. With type \<open>infinite\<close> and an object input that has a \<open>cursor\<close> or a \<open>direction\<close>
  field, the options element holds the input without these two fields (every other field
  unchanged, in order) and the type \<open>infinite\<close>.
\<close>

theorem getQueryKeyInternal_infinite_strips:
  assumes "obj_get fs ''cursor'' \<noteq> None \<or> obj_get fs ''direction'' \<noteq> None"
  shows "getQueryKeyInternal p (JObj fs) (Some TInfinite) =
           Key2 (splitPath p)
             \<lparr>opt_input =
                Some (JObj (filter (\<lambda>(k, v). k \<noteq> ''cursor'' \<and> k \<noteq> ''direction'') fs)),
              opt_type = Some TInfinite\<rparr>
         \<and> key_input (getQueryKeyInternal p (JObj fs) (Some TInfinite)) =
             JObj (filter (\<lambda>(k, v). k \<noteq> ''cursor'' \<and> k \<noteq> ''direction'') fs)
         \<and> get_prop (key_input (getQueryKeyInternal p (JObj fs) (Some TInfinite))) ''cursor''
             = JUndefined
         \<and> get_prop (key_input (getQueryKeyInternal p (JObj fs) (Some TInfinite))) ''direction''
             = JUndefined"
proof -
  let ?rest = "filter (\<lambda>(k, v). k \<noteq> ''cursor'' \<and> k \<noteq> ''direction'') fs"
  have k: "getQueryKeyInternal p (JObj fs) (Some TInfinite) =
             Key2 (splitPath p) \<lparr>opt_input = Some (JObj ?rest), opt_type = Some TInfinite\<rparr>"
    using assms
    by (auto simp: getQueryKeyInternal_def Let_def isObject_def
                   inputWithoutCursorAndDirection_def)
  have c: "obj_get ?rest ''cursor'' = None"
    by (induction fs) auto
  have d: "obj_get ?rest ''direction'' = None"
    by (induction fs) auto
  show ?thesis
    by (simp add: k key_input_def c d)
qed

theorem getQueryKeyInternal_infinite_strips_witness:
  "getQueryKeyInternal [''todos'', ''list'']
     (JObj [(''cursor'', JNum 5), (''direction'', JStr ''forward''), (''filter'', JStr ''x'')])
     (Some TInfinite) =
   Key2 [''todos'', ''list'']
     \<lparr>opt_input = Some (JObj [(''filter'', JStr ''x'')]), opt_type = Some TInfinite\<rparr>"
  using getQueryKeyInternal_infinite_strips
    [of "[(''cursor'', JNum 5), (''direction'', JStr ''forward''), (''filter'', JStr ''x'')]"
        "[''todos'', ''list'']"]
  by (simp add: splitPath_def)

text \<open>
  C5. The skip token as input with type \<open>any\<close>: the first branch tests \<open>!input\<close>, which
  a symbol fails, so the key gets an (empty) options element, while no input gives the
  one-element key.
\<close>

theorem getQueryKeyInternal_skipToken_any:
  "getQueryKeyInternal [''todos''] skipToken (Some TAny) =
     Key2 [''todos''] \<lparr>opt_input = None, opt_type = None\<rparr>
   \<and> getQueryKeyInternal [''todos''] JUndefined (Some TAny) = Key1 [''todos'']
   \<and> getQueryKeyInternal [''todos''] skipToken (Some TAny)
       \<noteq> getQueryKeyInternal [''todos''] JUndefined (Some TAny)"
  by (simp add: getQueryKeyInternal_def Let_def splitPath_def skipToken_def isObject_def)

text \<open>For the types \<open>query\<close> and \<open>infinite\<close> the skip token and no input give the same
  key: the last branch leaves the input out for both.\<close>

lemma getQueryKeyInternal_skipToken_query_infinite:
  "getQueryKeyInternal p skipToken (Some TQuery) =
     getQueryKeyInternal p JUndefined (Some TQuery)
   \<and> getQueryKeyInternal p skipToken (Some TInfinite) =
     getQueryKeyInternal p JUndefined (Some TInfinite)"
  by (simp add: getQueryKeyInternal_def Let_def skipToken_def isObject_def)

lemma atoms_Nil: "atoms [] = [[]]"
  by (subst atoms.simps) simp

lemma atoms_Cons:
  "atoms (c # cs) =
     (if c = CHR ''.'' then [] # atoms cs
      else (case atoms cs of [] \<Rightarrow> [[c]] | w # ws \<Rightarrow> (c # w) # ws))"
proof (cases "c = CHR ''.''")
  case True
  then show ?thesis
    by (subst atoms.simps) simp
next
  case False
  show ?thesis
  proof (cases "dropWhile (\<lambda>c. c \<noteq> CHR ''.'') cs")
    case Nil
    have a: "atoms (c # cs) = [c # takeWhile (\<lambda>c. c \<noteq> CHR ''.'') cs]"
      using False Nil by (subst atoms.simps) (simp del: dropWhile_eq_Nil_conv)
    have b: "atoms cs = [takeWhile (\<lambda>c. c \<noteq> CHR ''.'') cs]"
      using Nil by (subst atoms.simps) (simp del: dropWhile_eq_Nil_conv)
    show ?thesis
      using False by (simp add: a b)
  next
    case (Cons d r)
    have a: "atoms (c # cs) = (c # takeWhile (\<lambda>c. c \<noteq> CHR ''.'') cs) # atoms r"
      using False Cons by (subst atoms.simps) simp
    have b: "atoms cs = takeWhile (\<lambda>c. c \<noteq> CHR ''.'') cs # atoms r"
      using Cons by (subst atoms.simps) simp
    show ?thesis
      using False by (simp add: a b)
  qed
qed

lemma split_atoms_pointwise: "split (CHR ''.'') s = atoms s"
  by (induction s) (simp_all add: atoms_Nil atoms_Cons)

lemma split_atoms: "split (CHR ''.'') = atoms"
  by (rule ext) (rule split_atoms_pointwise)

lemma splitPath_atomic_segments: "splitPath p = atomic_segments p"
  by (simp add: splitPath_def atomic_segments_def split_atoms)

lemma atoms_dot_free: "a \<in> set (atoms s) \<Longrightarrow> CHR ''.'' \<notin> set a"
proof (induction s arbitrary: a)
  case Nil
  then show ?case by (simp add: atoms_Nil)
next
  case (Cons c cs)
  then show ?case
    by (auto simp: atoms_Cons split: if_splits list.splits)
qed

lemma atoms_not_Nil: "atoms s \<noteq> []"
  by (cases s) (auto simp: atoms_Nil atoms_Cons split: list.splits)

lemma join_Cons: "xs \<noteq> [] \<Longrightarrow> join sep (x # xs) = x @ sep @ join sep xs"
  by (cases xs) simp_all

lemma join_atoms: "join ''.'' (atoms s) = s"
proof (induction s)
  case Nil
  show ?case by (simp add: atoms_Nil)
next
  case (Cons c cs)
  show ?case
  proof (cases "c = CHR ''.''")
    case True
    then show ?thesis
      using Cons.IH by (simp add: atoms_Cons join_Cons atoms_not_Nil)
  next
    case False
    obtain w ws where a: "atoms cs = w # ws"
      using atoms_not_Nil [of cs] by (cases "atoms cs") auto
    show ?thesis
    proof (cases ws)
      case Nil
      then show ?thesis using Cons.IH a False by (simp add: atoms_Cons)
    next
      case (Cons y ys)
      then show ?thesis using Cons.IH a False by (simp add: atoms_Cons)
    qed
  qed
qed

text \<open>
  C6. For a fixed input and type, two paths have the same key exactly when their atomic
  segment sequences are the same, and then and only then the same first element, which is
  the atomic segment sequence itself. The code's \<open>splitPath\<close> computes that sequence:
  no atom contains the separator, and joining the atoms of a segment with the separator
  gives the segment back.
\<close>

theorem getQueryKeyInternal_eq_iff_atomic_segments:
  "splitPath p1 = atomic_segments p1
   \<and> (getQueryKeyInternal p1 i t = getQueryKeyInternal p2 i t)
       = (atomic_segments p1 = atomic_segments p2)
   \<and> (key_segments (getQueryKeyInternal p1 i t) = key_segments (getQueryKeyInternal p2 i t))
       = (atomic_segments p1 = atomic_segments p2)
   \<and> key_segments (getQueryKeyInternal p1 i t)
       = (if getQueryKeyInternal p1 i t = KeyEmpty then None else Some (atomic_segments p1))
   \<and> (\<forall>a \<in> set (atomic_segments p1). CHR ''.'' \<notin> set a)
   \<and> map (\<lambda>s. join ''.'' (atoms s)) p1 = p1
   \<and> getQueryKeyInternal [''todos.get''] i t = getQueryKeyInternal [''todos'', ''get''] i t"
proof -
  have ex: "splitPath [''todos.get''] = splitPath [''todos'', ''get'']"
    by (simp add: splitPath_def)
  have k: "(getQueryKeyInternal p1 i t = getQueryKeyInternal p2 i t)
             = (splitPath p1 = splitPath p2)
           \<and> (key_segments (getQueryKeyInternal p1 i t) = key_segments (getQueryKeyInternal p2 i t))
             = (splitPath p1 = splitPath p2)
           \<and> key_segments (getQueryKeyInternal p1 i t)
             = (if getQueryKeyInternal p1 i t = KeyEmpty then None else Some (splitPath p1))
           \<and> getQueryKeyInternal [''todos.get''] i t = getQueryKeyInternal [''todos'', ''get''] i t"
    unfolding getQueryKeyInternal_def Let_def ex
    by auto
  have d: "\<forall>a \<in> set (atomic_segments p1). CHR ''.'' \<notin> set a"
    by (auto simp: atomic_segments_def dest: atoms_dot_free)
  have j: "map (\<lambda>s. join ''.'' (atoms s)) p1 = p1"
    by (simp add: join_atoms)
  note k' = k [unfolded splitPath_atomic_segments]
  from splitPath_atomic_segments [of p1] k' d j show ?thesis
    by blast
qed

theorem getQueryKeyInternal_eq_iff_atomic_segments_witness:
  "atomic_segments [''todos.get'', ''byId''] = [''todos'', ''get'', ''byId'']
   \<and> getQueryKeyInternal [''todos.get'', ''byId''] (JNum 1) (Some TQuery)
       = getQueryKeyInternal [''todos'', ''get.byId''] (JNum 1) (Some TQuery)
   \<and> getQueryKeyInternal [''todos.get'', ''byId''] (JNum 1) (Some TQuery)
       \<noteq> getQueryKeyInternal [''todos'', ''getbyId''] (JNum 1) (Some TQuery)
   \<and> CHR ''.'' \<notin> set (hd (atomic_segments [''todos.get'', ''byId'']))"
  using getQueryKeyInternal_eq_iff_atomic_segments
    [of "[''todos.get'', ''byId'']" "JNum 1" "Some TQuery" "[''todos'', ''get.byId'']"]
    getQueryKeyInternal_eq_iff_atomic_segments
    [of "[''todos.get'', ''byId'']" "JNum 1" "Some TQuery" "[''todos'', ''getbyId'']"]
  by (simp add: atomic_segments_def atoms_Nil atoms_Cons)

section \<open>Properties of the path resolver\<close>

text \<open>
  C1, as the code has it. An invocation whose last segment is not \<open>_def\<close>, not a
  registered meta-operation and not an \<open>opts\<close> extension of one is not forwarded: the
  trap calls nothing on the underlying client, logs one error and returns undefined.
\<close>

theorem apply_handler_unmatched:
  assumes "pop this_path = (k, path1)" and "pop path1 = (proc, path2)"
    and "k \<noteq> ''_def''" and "procedure_of_key k = None" and "\<not> procedureExts proc k"
  shows "apply_handler client qc abort this_path argList =
           ([ConsoleError
               (''[trpc-svelte-query-adapter] Unhandled proxy path: ''
                  @ join ''.'' path2 @ ''.'' @ k)],
            Inr (Plain JUndefined))"
  using assms by (simp add: apply_handler_def)

theorem apply_handler_unmatched_witness:
  "apply_handler 1 2 (JBool True) [''todos'', ''get'', ''query''] [JNum 7] =
     ([ConsoleError ''[trpc-svelte-query-adapter] Unhandled proxy path: todos.query''],
      Inr (Plain JUndefined))"
  using apply_handler_unmatched
    [of "[''todos'', ''get'', ''query'']" "''query''" "[''todos'', ''get'']" "''get''"
        "[''todos'']" 1 2 "JBool True" "[JNum 7]"]
  by (simp add: pop_def procedure_of_key_def all_procedures_def procedureExts_def)

text \<open>
  C1, as the claim states it, fails: \<open>client.todos.get.query(input)\<close> reaches the last
  branch of the trap. No call on the underlying client is among the effects, in particular
  not \<open>todos.get.query(input)\<close>, and the result is undefined.
\<close>
theorem apply_handler_query_not_forwarded:
  "apply_handler 0 0 JUndefined [''todos'', ''get'', ''query''] [JObj [(''id'', JNum 1)]] =
     ([ConsoleError ''[trpc-svelte-query-adapter] Unhandled proxy path: todos.query''],
      Inr (Plain JUndefined))
   \<and> ClientCall \<lparr>target = [''todos'', ''get''], call_method = ''query'',
                   call_args = [JObj [(''id'', JNum 1)]]\<rparr>
       \<notin> set (fst (apply_handler 0 0 JUndefined [''todos'', ''get'', ''query'']
                       [JObj [(''id'', JNum 1)]]))"
  by (simp add: apply_handler_def pop_def procedure_of_key_def all_procedures_def
                procedureExts_def)

text \<open>
  C2. \<open>client.todos.createQueries(f)\<close>: the factory returns undefined off the root, and
  the trap calls what the factory returned, which raises a TypeError; nothing is logged.
\<close>
theorem apply_handler_createQueries_off_root:
  "apply_handler 0 0 JUndefined [''todos'', ''createQueries''] [JFun ''f''] =
     ([], Inl TypeError)"
  by (simp add: apply_handler_def pop_def procedure_of_key_def all_procedures_def)

lemma pop_snoc: "pop (p @ [x]) = (x, p)"
  by (simp add: pop_def)

text \<open>The same holds for each of the four root-only meta-operations at every path that
  is not the root.\<close>

lemma apply_handler_root_only_off_root:
  assumes "m = PQueries \<or> m = PServerQueries \<or> m = PUtils \<or> m = PContext" and "p \<noteq> []"
  shows "apply_handler client qc abort (p @ [Procedure_name m]) argList = ([], Inl TypeError)"
proof -
  have k: "Procedure_name m \<noteq> ''_def''"
    by (cases m) simp_all
  have f: "procedure_of_key (Procedure_name m) = Some m"
    by (cases m) (simp_all add: procedure_of_key_def all_procedures_def)
  have g: "procedures m \<lparr>trpcProxyClient = client, queryClient = qc, path = p,
             key = Procedure_name m, abortOnUnmount = abort\<rparr> = None"
    using assms by (cases m) simp_all
  show ?thesis
    by (simp add: apply_handler_def pop_snoc k f g)
qed
section \<open>Properties of the cache-control tree\<close>

lemma utils_access_nested:
  assumes "\<forall>k \<in> set segs. k \<noteq> ''client'' \<and> util_of_key k = None"
  shows "utils_access ctx p (segs @ ks) = utils_access ctx (p @ segs) ks"
  using assms
  by (induction segs arbitrary: p) (auto simp: utils_get_def)

text \<open>
  C10. On every node of the utils tree, whatever its path, the property \<open>client\<close> is the
  underlying client handle; so the chain \<open>utils.s1. ... .sn.client\<close> through nested
  nodes yields the client for every depth \<open>n\<close>.
\<close>
theorem utils_client_at_every_depth:
  assumes "\<forall>k \<in> set segs. k \<noteq> ''client'' \<and> util_of_key k = None"
  shows "utils_get ctx (p @ segs) ''client'' = ClientHandle (trpcProxyClient ctx)
         \<and> utils_access ctx [] (segs @ [''client'']) = Some (ClientHandle (trpcProxyClient ctx))"
  using utils_access_nested [OF assms, of ctx "[]" "[''client'']"]
  by (simp add: utils_get_def)
theorem utils_client_at_every_depth_witness:
  "utils_access
     \<lparr>trpcProxyClient = 7, queryClient = 8, path = [], key = ''createUtils'',
      abortOnUnmount = JUndefined\<rparr>
     [] [''todos'', ''get'', ''client''] = Some (ClientHandle 7)
   \<and> utils_access
     \<lparr>trpcProxyClient = 7, queryClient = 8, path = [], key = ''createUtils'',
      abortOnUnmount = JUndefined\<rparr>
     [] [''client''] = Some (ClientHandle 7)"
  using utils_client_at_every_depth
    [of "[''todos'', ''get'']"
        "\<lparr>trpcProxyClient = 7, queryClient = 8, path = [], key = ''createUtils'',
          abortOnUnmount = JUndefined\<rparr>" "[]"]
    utils_client_at_every_depth
    [of "[]"
        "\<lparr>trpcProxyClient = 7, queryClient = 8, path = [], key = ''createUtils'',
          abortOnUnmount = JUndefined\<rparr>" "[]"]
  by (simp add: util_of_key_def all_utils_def)

section \<open>Properties of the binders\<close>






text \<open>Every result of the infinite-query binder is built from one of the two
  descriptors.\<close>

lemma infiniteQuery_result:
  assumes "infiniteQuery store_get ctx inp opts = Inr r"
  shows "\<exists>co srcs res.
           r = Static (infiniteQuery_static ctx inp co)
           \<or> r = Derived srcs (infiniteQuery_derived ctx inp co)
           \<or> r = Lazy srcs (infiniteQuery_derived ctx inp co) res"
  using assms
  by (auto simp: infiniteQuery_def Let_def split: sum.splits if_splits)
















text \<open>
  C8. With \<open>lazy\<close> set the binder returns the observer together with the activation
  function; the third source of the observer is a fresh store holding false, and while
  that store holds false the descriptor is disabled. Called with a truthy value (a
  pending promise, say), the activation function has no effect before it suspends on that
  value, so the enabled store is not set before the value is there; resumed with the
  value, it first writes it to the cache under the base key and then sets the store to
  true. The base key is that of the input given to the binder, or of the empty object when
  that input is a store, whatever the store holds.
\<close>

theorem query_lazy_activation:
  assumes "isSvelteStore opts = Inr isOptsStore"
    and "isSvelteStore inp = Inr isInputStore"
    and "truthy (get_prop (if isOptsStore then store_get opts else opts) ''lazy'')"
    and "truthy data"
    and "K = getQueryKeyInternal (path ctx) (if isInputStore then JObj [] else inp) (Some TQuery)"
  shows "query store_get ctx inp opts =
           Inr (Lazy [if isInputStore then UserStore inp else BlankStore,
                      if isOptsStore then UserStore opts else BlankStore,
                      Writable (JBool False)]
                  (query_derived ctx inp (if isOptsStore then store_get opts else opts))
                  (query_resolver K))
         \<and> enabled (query_derived ctx inp (if isOptsStore then store_get opts else opts)
                      s_input s_opts (JBool False)) = Some (JBool False)
         \<and> before_await (query_resolver K data) = []
         \<and> awaited (query_resolver K data) = Some data
         \<and> resume (query_resolver K data) v = Return [SetQueryData K v, EnabledSet True]
         \<and> K = (if isInputStore
                 then Key2 (splitPath (path ctx))
                        \<lparr>opt_input = Some (JObj []), opt_type = Some TQuery\<rparr>
                 else getQueryKeyInternal (path ctx) inp (Some TQuery))"
proof -
  have q: "query store_get ctx inp opts =
           Inr (Lazy [if isInputStore then UserStore inp else BlankStore,
                      if isOptsStore then UserStore opts else BlankStore,
                      Writable (JBool False)]
                  (query_derived ctx inp (if isOptsStore then store_get opts else opts))
                  (query_resolver K))"
    using assms(1,2,3,5) by (simp add: query_def Let_def)
  have e: "enabled (query_derived ctx inp (if isOptsStore then store_get opts else opts)
                      s_input s_opts (JBool False)) = Some (JBool False)"
    by (simp add: query_derived_def Let_def isBlank_def blank_def js_and_def)
  have r: "query_resolver K data =
             Await [] data (\<lambda>v. Return [SetQueryData K v, EnabledSet True])"
    using assms(4) by (simp add: query_resolver_def)
  have k: "K = (if isInputStore
                 then Key2 (splitPath (path ctx))
                        \<lparr>opt_input = Some (JObj []), opt_type = Some TQuery\<rparr>
                 else getQueryKeyInternal (path ctx) inp (Some TQuery))"
    using assms(5)
    by (simp add: getQueryKeyInternal_def Let_def isObject_def skipToken_def)
  show ?thesis
    by (simp only: q e r before_await.simps awaited.simps resume.simps k [symmetric] simp_thms)
qed

theorem query_lazy_activation_witness:
  "query (\<lambda>s. JNum 3)
     \<lparr>trpcProxyClient = 0, queryClient = 0, path = [''todos'', ''get''],
      key = ''createQuery'', abortOnUnmount = JUndefined\<rparr>
     (JObj [(''subscribe'', JFun ''subscribe'')]) (JObj [(''lazy'', JBool True)]) =
     Inr (Lazy [UserStore (JObj [(''subscribe'', JFun ''subscribe'')]), BlankStore,
                Writable (JBool False)]
            (query_derived
               \<lparr>trpcProxyClient = 0, queryClient = 0, path = [''todos'', ''get''],
                key = ''createQuery'', abortOnUnmount = JUndefined\<rparr>
               (JObj [(''subscribe'', JFun ''subscribe'')]) (JObj [(''lazy'', JBool True)]))
            (query_resolver
               (Key2 [''todos'', ''get'']
                  \<lparr>opt_input = Some (JObj []), opt_type = Some TQuery\<rparr>)))
   \<and> before_await
       (query_resolver
          (Key2 [''todos'', ''get''] \<lparr>opt_input = Some (JObj []), opt_type = Some TQuery\<rparr>)
          (JPromise 1)) = []
   \<and> resume
       (query_resolver
          (Key2 [''todos'', ''get''] \<lparr>opt_input = Some (JObj []), opt_type = Some TQuery\<rparr>)
          (JPromise 1)) (JStr ''page'') =
       Return
         [SetQueryData
            (Key2 [''todos'', ''get''] \<lparr>opt_input = Some (JObj []), opt_type = Some TQuery\<rparr>)
            (JStr ''page''),
          EnabledSet True]"
  using query_lazy_activation
    [of "JObj [(''lazy'', JBool True)]" False "JObj [(''subscribe'', JFun ''subscribe'')]" True
        "\<lambda>s. JNum 3" "JPromise 1"
        "Key2 [''todos'', ''get''] \<lparr>opt_input = Some (JObj []), opt_type = Some TQuery\<rparr>"
        "\<lparr>trpcProxyClient = 0, queryClient = 0, path = [''todos'', ''get''],
          key = ''createQuery'', abortOnUnmount = JUndefined\<rparr>"
        JUndefined JUndefined "JStr ''page''"]
  by (simp add: isSvelteStore_def getQueryKeyInternal_def Let_def isObject_def skipToken_def
                splitPath_def)

section \<open>Properties of the subscription binder\<close>

lemma run_cleanup_stopped:
  assumes "i < length (isStopped s)" and "isStopped s ! i"
  shows "i < length (isStopped (run_cleanup s)) \<and> isStopped (run_cleanup s) ! i
         \<and> handler_calls (run_cleanup s) = handler_calls s"
proof (cases "cleanup s")
  case None
  then show ?thesis using assms by (simp add: run_cleanup_def)
next
  case (Some a)
  have "(isStopped s)[a := True] ! i"
  proof (cases "a < length (isStopped s)")
    case True
    then show ?thesis using assms by (simp add: nth_list_update)
  next
    case False
    then show ?thesis using assms by simp
  qed
  then show ?thesis using assms by (simp add: run_cleanup_def Some)
qed

lemma run_cb_stopped:
  assumes "i < length (isStopped s)" and "isStopped s ! i"
  shows "i < length (isStopped (run_cb c s)) \<and> isStopped (run_cb c s) ! i
         \<and> handler_calls (run_cb c s) = handler_calls s"
  using assms
  by (simp add: run_cb_def nth_append)

lemma step_stopped:
  assumes "i < length (isStopped s)" and "isStopped s ! i"
  shows "i < length (isStopped (step c s ev)) \<and> isStopped (step c s ev) ! i
         \<and> calls_via i (step c s ev) = calls_via i s"
proof (cases ev)
  case AfterUpdate
  show ?thesis
    using run_cb_stopped [of i "run_cleanup s" c] run_cleanup_stopped [OF assms] assms
    by (simp add: AfterUpdate Let_def effect_apply_def calls_via_def)
next
  case Destroy
  show ?thesis
    using run_cleanup_stopped [OF assms]
    by (simp add: Destroy calls_via_def)
next
  case (Deliver j e)
  show ?thesis
    using assms
    by (auto simp: Deliver deliver_def calls_via_def)
qed

lemma stopped_stays_silent:
  assumes "i < length (isStopped s)" and "isStopped s ! i"
  shows "calls_via i (foldl (step c) s evs) = calls_via i s"
  using assms
proof (induction evs arbitrary: s)
  case Nil
  show ?case by simp
next
  case (Cons ev evs)
  have "calls_via i (foldl (step c) (step c s ev) evs) = calls_via i (step c s ev)"
    using Cons.IH [of "step c s ev"] step_stopped [OF Cons.prems, of c ev] by simp
  then show ?case
    using step_stopped [OF Cons.prems, of c ev] by simp
qed

lemma run_cleanup_stops:
  assumes "cleanup s = Some i" and "i < length (isStopped s)"
  shows "i < length (isStopped (run_cleanup s)) \<and> isStopped (run_cleanup s) ! i
         \<and> handler_calls (run_cleanup s) = handler_calls s"
  using assms by (simp add: run_cleanup_def)

text \<open>In every state that a component can reach, the cleanup held by the effect is
  that of an existing subscription.\<close>

lemma cleanup_in_range_step:
  assumes "cleanup_in_range s"
  shows "cleanup_in_range (step c s ev)"
proof (cases ev)
  case AfterUpdate
  show ?thesis
    using assms
    by (auto simp: AfterUpdate Let_def effect_apply_def run_cb_def run_cleanup_def
                   cleanup_in_range_def split: option.splits)
next
  case Destroy
  show ?thesis
    using assms
    by (auto simp: Destroy run_cleanup_def cleanup_in_range_def split: option.splits)
next
  case (Deliver j e)
  show ?thesis
    using assms
    by (auto simp: Deliver deliver_def cleanup_in_range_def split: option.splits)
qed

lemma cleanup_in_range_run:
  assumes "cleanup_in_range s"
  shows "cleanup_in_range (foldl (step c) s evs)"
  using assms
  by (induction evs arbitrary: s) (simp_all add: cleanup_in_range_step)

lemma cleanup_in_range_reachable:
  "cleanup_in_range (foldl (step c) initial_state evs)"
  by (rule cleanup_in_range_run) (simp add: cleanup_in_range_def initial_state_def)

text \<open>
  C9. Once the cleanup of a subscription has run, by the destroy callback or by a re-run
  of the effect, no event that the transport delivers to its handlers afterwards, in any
  interleaving with later updates, calls a handler of the caller through it.
\<close>

theorem teardown_silences_subscription:
  assumes "cleanup s = Some i" and "i < length (isStopped s)"
    and "ev = Destroy
         \<or> (ev = AfterUpdate
             \<and> some_changed [JStr (sub_queryKey c), sub_enabled c] (dep_values s))"
  shows "calls_via i (foldl (step c) (step c s ev) evs) = calls_via i s
         \<and> isStopped (step c s ev) ! i"
proof -
  have a: "i < length (isStopped (step c s ev)) \<and> isStopped (step c s ev) ! i
           \<and> handler_calls (step c s ev) = handler_calls s"
  proof (cases "ev = Destroy")
    case True
    then show ?thesis
      using run_cleanup_stops [OF assms(1,2)] by simp
  next
    case False
    then have u: "ev = AfterUpdate"
      and ch: "some_changed [JStr (sub_queryKey c), sub_enabled c] (dep_values s)"
      using assms(3) by auto
    have r: "i < length (isStopped (run_cleanup s)) \<and> isStopped (run_cleanup s) ! i
             \<and> handler_calls (run_cleanup s) = handler_calls s"
      using run_cleanup_stops [OF assms(1,2)] .
    have "i < length (isStopped (run_cb c (run_cleanup s)))
          \<and> isStopped (run_cb c (run_cleanup s)) ! i
          \<and> handler_calls (run_cb c (run_cleanup s)) = handler_calls (run_cleanup s)"
      using run_cb_stopped [of i "run_cleanup s" c] r by simp
    then show ?thesis
      using r ch by (simp add: u Let_def effect_apply_def del: some_changed.simps)
  qed
  have "calls_via i (foldl (step c) (step c s ev) evs) = calls_via i (step c s ev)"
    using stopped_stays_silent [of i "step c s ev" c evs] a by simp
  then show ?thesis
    using a by (simp add: calls_via_def)
qed

theorem teardown_silences_subscription_witness:
  "calls_via 0
     (foldl
        (step (subscribe (\<lambda>k. ''k'')
               \<lparr>trpcProxyClient = 0, queryClient = 0, path = [''onTimestamp''],
                key = ''createSubscription'', abortOnUnmount = JUndefined\<rparr>
               JUndefined
               (JObj [(''onStarted'', JFun ''started''), (''onData'', JFun ''data'')])))
        initial_state
        [AfterUpdate, Destroy, Deliver 0 TStarted, AfterUpdate, Deliver 0 (TData (JNum 1))])
     = []
   \<and> calls_via 0
     (foldl
        (step (subscribe (\<lambda>k. ''k'')
               \<lparr>trpcProxyClient = 0, queryClient = 0, path = [''onTimestamp''],
                key = ''createSubscription'', abortOnUnmount = JUndefined\<rparr>
               JUndefined
               (JObj [(''onStarted'', JFun ''started''), (''onData'', JFun ''data'')])))
        initial_state
        [AfterUpdate, Deliver 0 TStarted])
     = [(0, ''onStarted'', [])]"
  using teardown_silences_subscription
    [of "step (subscribe (\<lambda>k. ''k'')
               \<lparr>trpcProxyClient = 0, queryClient = 0, path = [''onTimestamp''],
                key = ''createSubscription'', abortOnUnmount = JUndefined\<rparr>
               JUndefined
               (JObj [(''onStarted'', JFun ''started''), (''onData'', JFun ''data'')])) initial_state AfterUpdate"
        0 Destroy
        "subscribe (\<lambda>k. ''k'')
               \<lparr>trpcProxyClient = 0, queryClient = 0, path = [''onTimestamp''],
                key = ''createSubscription'', abortOnUnmount = JUndefined\<rparr>
               JUndefined
               (JObj [(''onStarted'', JFun ''started''), (''onData'', JFun ''data'')])"
        "[Deliver 0 TStarted, AfterUpdate, Deliver 0 (TData (JNum 1))]"]
  by (simp add: subscribe_def initial_state_def effect_apply_def run_cleanup_def run_cb_def deliver_def
                calls_via_def strict_neq_def nullish_def Let_def)

end
